theory Spec2Isabelle
  imports Complex_Main "HOL-Library.Word"
begin

section \<open>JavaScript values\<close>

text \<open>
  A JavaScript string is a sequence of 16-bit code units; \<open>length\<close>, \<open>slice\<close> and
  \<open>endsWith\<close> all count code units. The literals of \<open>server.js\<close> are ASCII, so each of
  their characters is one code unit with the value of its byte.
\<close>

type_synonym code_unit = "16 word"
type_synonym jsstring = "code_unit list"

definition lit :: "string \<Rightarrow> jsstring" where
  "lit s = map (\<lambda>c. word_of_nat (of_char c)) s"

text \<open>
  The values that reach the handlers: \<open>req.query.shop\<close> (absent, a string, an array or an
  object, as the query parser builds them) and \<open>req.body\<close> (what the JSON body parser
  built, or nothing). A number carries its exact value; \<open>-0\<close> and \<open>0\<close> are both the number
  zero, and both are falsy. An object is the list of its own properties.
\<close>

datatype jsval =
    JUndefined
  | JNull
  | JBool bool
  | JNum rat
  | JStr jsstring
  | JArr "jsval list"
  | JObj "(jsstring \<times> jsval) list"

datatype jstype = TUndefined | TObject | TBoolean | TNumber | TString

text \<open>The \<open>typeof\<close> operator: \<open>null\<close> and arrays are \<open>"object"\<close>.\<close>

fun typeof :: "jsval \<Rightarrow> jstype" where
  "typeof JUndefined = TUndefined"
| "typeof JNull = TObject"
| "typeof (JBool b) = TBoolean"
| "typeof (JNum n) = TNumber"
| "typeof (JStr s) = TString"
| "typeof (JArr xs) = TObject"
| "typeof (JObj kvs) = TObject"

text \<open>
  Truthiness, as \<open>!x\<close>, \<open>x || y\<close> and \<open>Boolean(x)\<close> compute it: \<open>undefined\<close>, \<open>null\<close>,
  \<open>false\<close>, zero and the empty string are falsy, everything else (every array and every
  object, also the empty ones) is truthy.
\<close>

fun ToBoolean :: "jsval \<Rightarrow> bool" where
  "ToBoolean JUndefined = False"
| "ToBoolean JNull = False"
| "ToBoolean (JBool b) = b"
| "ToBoolean (JNum n) = (n \<noteq> 0)"
| "ToBoolean (JStr s) = (s \<noteq> [])"
| "ToBoolean (JArr xs) = True"
| "ToBoolean (JObj kvs) = True"

text \<open>
  Reading a property \<open>v.name\<close> for the names the handlers read (\<open>brandName\<close>, \<open>accent\<close> and
  the three flags): an object gives its own property or \<open>undefined\<close>; an array, a string,
  a number or a boolean has no property of these names. The handlers never read a property
  of \<open>undefined\<close> or \<open>null\<close> (\<open>req.body || {}\<close> comes first).
\<close>

fun getProp :: "jsval \<Rightarrow> jsstring \<Rightarrow> jsval" where
  "getProp (JObj kvs) name = (case map_of kvs name of None \<Rightarrow> JUndefined | Some v \<Rightarrow> v)"
| "getProp v name = JUndefined"

text \<open>
  The code units of a value that \<open>typeof\<close> has shown to be a string; the handlers use
  \<open>shop\<close> as a string only behind that test.
\<close>

fun stringOf :: "jsval \<Rightarrow> jsstring" where
  "stringOf (JStr s) = s"
| "stringOf v = []"

text \<open>\<open>x || y\<close> on values.\<close>

definition orElse :: "jsval \<Rightarrow> jsval \<Rightarrow> jsval" where
  "orElse x y = (if ToBoolean x then x else y)"

text \<open>
  \<open>String.prototype.slice(start, end)\<close>: a negative index counts from the end, both are
  clamped to the string, and an empty range gives the empty string.
\<close>

definition slice :: "jsstring \<Rightarrow> int \<Rightarrow> int \<Rightarrow> jsstring" where
  "slice s start fin =
     (let len = int (length s);
          from = (if start < 0 then max (len + start) 0 else min start len);
          to = (if fin < 0 then max (len + fin) 0 else min fin len)
      in if to \<le> from then [] else take (nat (to - from)) (drop (nat from) s))"

text \<open>\<open>String.prototype.endsWith(searchString)\<close>, with the default end position.\<close>

definition endsWith :: "jsstring \<Rightarrow> jsstring \<Rightarrow> bool" where
  "endsWith s searchStr =
     (let len = length s; searchLength = length searchStr
      in if len < searchLength then False
         else take searchLength (drop (len - searchLength) s) = searchStr)"

text \<open>\<open>Array.prototype.join(sep)\<close> on an array of strings.\<close>

fun join :: "jsstring \<Rightarrow> jsstring list \<Rightarrow> jsstring" where
  "join sep [] = []"
| "join sep [x] = x"
| "join sep (x # y # ys) = x @ sep @ join sep (y # ys)"

section \<open>The settings store\<close>

record settings =
  shop :: jsstring
  brandName :: jsstring
  accent :: jsstring
  notifyDelay :: bool
  notifyOutForDelivery :: bool
  notifyDelivered :: bool

text \<open>\<open>settingsByShop\<close>, a \<open>Map\<close> keyed by the shop string.\<close>

type_synonym store = "jsstring \<rightharpoonup> settings"

definition defaultSettings :: "jsstring \<Rightarrow> settings" where
  "defaultSettings s =
     \<lparr>shop = s,
      brandName = lit ''Orderly'',
      accent = lit ''#16a34a'',
      notifyDelay = True,
      notifyOutForDelivery = True,
      notifyDelivered = True\<rparr>"

text \<open>
  \<open>settingsByShop.get(shop) || defaultSettings(shop)\<close>: a stored record is an object, hence
  truthy; a missing key gives \<open>undefined\<close>.
\<close>

definition getOrDefault :: "store \<Rightarrow> jsstring \<Rightarrow> settings" where
  "getOrDefault st s = (case st s of None \<Rightarrow> defaultSettings s | Some r \<Rightarrow> r)"

text \<open>The record as the object that \<open>res.json\<close> serialises.\<close>

definition settingsJson :: "settings \<Rightarrow> jsval" where
  "settingsJson r =
     JObj [(lit ''shop'', JStr (shop r)),
           (lit ''brandName'', JStr (brandName r)),
           (lit ''accent'', JStr (accent r)),
           (lit ''notifyDelay'', JBool (notifyDelay r)),
           (lit ''notifyOutForDelivery'', JBool (notifyOutForDelivery r)),
           (lit ''notifyDelivered'', JBool (notifyDelivered r))]"

section \<open>Requests and responses\<close>

text \<open>
  A request that one of the application's routes matches, with the two parts of it that
  the code reads: \<open>req.query.shop\<close> and \<open>req.body\<close>, as the query parser and
  \<open>express.json()\<close> left them. The response records the status code, the header that
  \<open>server.js\<close> sets and what was sent. The text of the HTML page is presentation and is
  not part of the model.

  Two answers of the framework are outside the model, since no code of \<open>server.js\<close> runs
  for them or decides them: the 404 for a path that no route matches, and the 400 for a
  body that \<open>express.json()\<close> cannot parse (that middleware comes first, so neither the
  header middleware nor a route runs). Both leave the store alone.
\<close>

datatype route = GetSettings | PostSettings | Page | AuthCallback | Health

record request =
  route :: route
  query_shop :: jsval
  body :: jsval

datatype sent = NotSent | SentJson jsval | SentText jsstring | SentHtml | SentErrorPage

record response =
  statusCode :: nat
  headers :: "(jsstring \<times> jsstring) list"
  sent :: sent

definition fresh :: response where
  "fresh = \<lparr>statusCode = 200, headers = [], sent = NotSent\<rparr>"

text \<open>
  \<open>res.setHeader(name, value)\<close> validates the value before it stores it: a code unit
  other than a tab and outside \<open>0x20\<close> to \<open>0x7e\<close> and \<open>0x80\<close> to \<open>0xff\<close> makes it throw
  \<open>ERR_INVALID_CHAR\<close>. Otherwise it replaces an earlier value of the header. The
  application sets one header only, so names are compared as they are written.
\<close>

datatype error = ERR_INVALID_CHAR

definition validHeaderChar :: "code_unit \<Rightarrow> bool" where
  "validHeaderChar c = (c = 0x09 \<or> (0x20 \<le> c \<and> c \<le> 0x7e) \<or> (0x80 \<le> c \<and> c \<le> 0xff))"

definition checkInvalidHeaderChar :: "jsstring \<Rightarrow> bool" where
  "checkInvalidHeaderChar v = list_ex (\<lambda>c. \<not> validHeaderChar c) v"

definition setHeader :: "jsstring \<Rightarrow> jsstring \<Rightarrow> response \<Rightarrow> error + response" where
  "setHeader name v res =
     (if checkInvalidHeaderChar v then Inl ERR_INVALID_CHAR
      else Inr (res\<lparr>headers := (name, v) # filter (\<lambda>h. fst h \<noteq> name) (headers res)\<rparr>))"

subsection \<open>The Content-Security-Policy middleware\<close>

definition frameAncestors :: "jsval \<Rightarrow> jsstring list" where
  "frameAncestors q =
     [lit ''https://admin.shopify.com'', lit ''https://*.myshopify.com''] @
     (case q of
        JStr s \<Rightarrow> if endsWith s (lit ''.myshopify.com'') then [lit ''https://'' @ s] else []
      | _ \<Rightarrow> [])"

definition cspValue :: "jsval \<Rightarrow> jsstring" where
  "cspValue q =
     join (lit ''; '')
       [lit ''default-src 'self' https: data: blob:'',
        lit ''script-src 'self' 'unsafe-inline' https://cdn.shopify.com https://unpkg.com'',
        lit ''style-src 'self' 'unsafe-inline' https://cdn.shopify.com https://unpkg.com'',
        lit ''img-src 'self' https: data: blob:'',
        lit ''connect-src 'self' https:'',
        lit ''frame-ancestors '' @ join (lit '' '') (frameAncestors q)]"

text \<open>
  The middleware copies \<open>shop\<close> into the header value as it came, so it throws where
  \<open>res.setHeader\<close> does; otherwise it passes the response on (\<open>next()\<close>).
\<close>

definition cspMiddleware :: "request \<Rightarrow> response \<Rightarrow> error + response" where
  "cspMiddleware req res = setHeader (lit ''Content-Security-Policy'') (cspValue (query_shop req)) res"

subsection \<open>The route handlers\<close>

definition missingShop :: jsval where
  "missingShop = JObj [(lit ''ok'', JBool False), (lit ''error'', JStr (lit ''Missing ?shop=''))]"

definition okSettings :: "settings \<Rightarrow> jsval" where
  "okSettings r = JObj [(lit ''ok'', JBool True), (lit ''settings'', settingsJson r)]"

text \<open>\<open>app.get("/api/settings")\<close>\<close>

definition getSettings :: "request \<Rightarrow> response \<Rightarrow> store \<Rightarrow> response \<times> store" where
  "getSettings req res st =
     (let q = query_shop req
      in if \<not> ToBoolean q \<or> typeof q \<noteq> TString
         then (res\<lparr>statusCode := 400, sent := SentJson missingShop\<rparr>, st)
         else
           let s = stringOf q;
               current = getOrDefault st s
           in (res\<lparr>sent := SentJson (okSettings current)\<rparr>, st(s \<mapsto> current)))"

text \<open>The record \<open>next\<close> that \<open>app.post("/api/settings")\<close> builds from \<open>prev\<close> and the body.\<close>

definition mergeSettings :: "settings \<Rightarrow> jsval \<Rightarrow> settings" where
  "mergeSettings prev b =
     prev\<lparr>brandName :=
            (case getProp b (lit ''brandName'') of
               JStr n \<Rightarrow> slice n 0 40
             | _ \<Rightarrow> brandName prev),
          accent :=
            (case getProp b (lit ''accent'') of
               JStr a \<Rightarrow> a
             | _ \<Rightarrow> accent prev),
          notifyDelay := ToBoolean (getProp b (lit ''notifyDelay'')),
          notifyOutForDelivery := ToBoolean (getProp b (lit ''notifyOutForDelivery'')),
          notifyDelivered := ToBoolean (getProp b (lit ''notifyDelivered''))\<rparr>"

text \<open>\<open>app.post("/api/settings")\<close>\<close>

definition postSettings :: "request \<Rightarrow> response \<Rightarrow> store \<Rightarrow> response \<times> store" where
  "postSettings req res st =
     (let q = query_shop req
      in if \<not> ToBoolean q \<or> typeof q \<noteq> TString
         then (res\<lparr>statusCode := 400, sent := SentJson missingShop\<rparr>, st)
         else
           let s = stringOf q;
               prev = getOrDefault st s;
               b = orElse (body req) (JObj []);
               next = mergeSettings prev b
           in (res\<lparr>sent := SentJson (okSettings next)\<rparr>, st(s \<mapsto> next)))"

text \<open>
  \<open>server.js\<close> installs no error handler, so an exception thrown by the middleware goes
  to the default one of the framework: no route runs, and the answer has status 500, the
  error handler's own \<open>Content-Security-Policy\<close> (\<open>default-src 'none'\<close>) and an error page.
\<close>

definition internalServerError :: response where
  "internalServerError =
     \<lparr>statusCode = 500,
      headers = [(lit ''Content-Security-Policy'', lit (''default-src 'none'' @ [CHR 0x27]))],
      sent = SentErrorPage\<rparr>"

text \<open>
  One request: the middleware sets the header on the fresh response, then the route
  matched answers. The routes other than the two for \<open>/api/settings\<close> send a fixed answer
  and leave the store alone.
\<close>

definition handle :: "request \<Rightarrow> store \<Rightarrow> response \<times> store" where
  "handle req st =
     (case cspMiddleware req fresh of
        Inl err \<Rightarrow> (internalServerError, st)
      | Inr res \<Rightarrow>
          (case route req of
             GetSettings \<Rightarrow> getSettings req res st
           | PostSettings \<Rightarrow> postSettings req res st
           | Page \<Rightarrow> (res\<lparr>statusCode := 200, sent := SentHtml\<rparr>, st)
           | AuthCallback \<Rightarrow>
               (res\<lparr>statusCode := 200,
                    sent := SentText (lit ''Orderly starter: auth callback placeholder. Next step is implementing Shopify OAuth here.'')\<rparr>,
                st)
           | Health \<Rightarrow>
               (res\<lparr>sent := SentJson (JObj [(lit ''ok'', JBool True),
                                            (lit ''service'', JStr (lit ''orderly-starter''))])\<rparr>,
                st)))"

text \<open>The store after a sequence of requests, served one after the other.\<close>

fun serve :: "request list \<Rightarrow> store \<Rightarrow> store" where
  "serve [] st = st"
| "serve (req # reqs) st = serve reqs (snd (handle req st))"

section \<open>What holds of every stored record\<close>

text \<open>A record stored under the key \<open>k\<close> names that shop and has a brand name of at most 40 code units.\<close>

definition wf_record :: "jsstring \<Rightarrow> settings \<Rightarrow> bool" where
  "wf_record k r = (shop r = k \<and> length (brandName r) \<le> 40)"

text \<open>A key of the store came through the middleware and through the guard of a handler.\<close>

definition wf_key :: "jsstring \<Rightarrow> bool" where
  "wf_key k = (k \<noteq> [] \<and> \<not> checkInvalidHeaderChar (cspValue (JStr k)))"

section \<open>Example requests\<close>

definition acme :: jsstring where
  "acme = lit ''acme.myshopify.com''"

definition acmeStore :: store where
  "acmeStore = Map.empty(acme \<mapsto> defaultSettings acme)"

definition onlyDelivered :: request where
  "onlyDelivered =
     \<lparr>route = PostSettings, query_shop = JStr acme,
      body = JObj [(lit ''notifyDelivered'', JBool False)]\<rparr>"


definition getAcme :: request where
  "getAcme = \<lparr>route = GetSettings, query_shop = JStr acme, body = JUndefined\<rparr>"

definition getNoShop :: request where
  "getNoShop = \<lparr>route = GetSettings, query_shop = JUndefined, body = JUndefined\<rparr>"

definition postTwoShops :: request where
  "postTwoShops =
     \<lparr>route = PostSettings, query_shop = JArr [JStr acme, JStr (lit ''globex.myshopify.com'')],
      body = JObj [(lit ''brandName'', JStr (lit ''Acme Co''))]\<rparr>"

definition longName :: request where
  "longName =
     \<lparr>route = PostSettings, query_shop = JStr acme,
      body = JObj [(lit ''brandName'', JStr (lit ''Acme Outdoor Supply and Hardware Company of Ohio!!''))]\<rparr>"

definition shopInBody :: request where
  "shopInBody =
     \<lparr>route = PostSettings, query_shop = JStr acme,
      body = JObj [(lit ''shop'', JStr (lit ''globex.myshopify.com'')),
                   (lit ''notifyDelay'', JBool True)]\<rparr>"









section \<open>String and value lemmas\<close>

lemma code_unit_inj:
  "(word_of_nat (of_char x) :: 16 word) = word_of_nat (of_char y) \<longleftrightarrow> x = y"
proof
  assume eq: "(word_of_nat (of_char x) :: 16 word) = word_of_nat (of_char y)"
  have small: "unat (word_of_nat (of_char c) :: 16 word) = of_char c" for c :: char
  proof -
    have "(of_char c :: nat) < 2 ^ 16"
      by (rule less_trans [OF nat_of_char_less_256]) simp
    then show ?thesis
      by (simp add: unat_of_nat)
  qed
  from eq have "unat (word_of_nat (of_char x) :: 16 word) = unat (word_of_nat (of_char y) :: 16 word)"
    by simp
  then have "(of_char x :: nat) = of_char y"
    by (simp only: small)
  then show "x = y" by simp
qed simp

lemma lit_eq_iff [simp]: "lit a = lit b \<longleftrightarrow> a = b"
  by (simp add: lit_def inj_map_eq_map inj_def code_unit_inj)

lemma lit_Nil [simp]: "lit [] = []" by (simp add: lit_def)
lemma lit_eq_Nil [simp]: "lit a = [] \<longleftrightarrow> a = []" by (simp add: lit_def)
lemma length_lit [simp]: "length (lit a) = length a" by (simp add: lit_def)
lemma take_lit: "take n (lit a) = lit (take n a)" by (simp add: lit_def take_map)

lemma slice_0_40: "slice s 0 40 = take 40 s"
  by (cases "s = []") (auto simp: slice_def Let_def min_def)

lemma endsWith_iff: "endsWith s t \<longleftrightarrow> (\<exists>p. s = p @ t)"
proof
  assume "endsWith s t"
  then have le: "length t \<le> length s" and eq: "take (length t) (drop (length s - length t) s) = t"
    by (auto simp: endsWith_def Let_def split: if_splits)
  from le have "drop (length s - length t) s = t" using eq by simp
  then have "s = take (length s - length t) s @ t"
    by (metis append_take_drop_id)
  then show "\<exists>p. s = p @ t" ..
next
  assume "\<exists>p. s = p @ t"
  then show "endsWith s t" by (auto simp: endsWith_def Let_def)
qed

lemma valid_shop_iff: "(\<not> (\<not> ToBoolean q \<or> typeof q \<noteq> TString)) \<longleftrightarrow> (\<exists>s. q = JStr s \<and> s \<noteq> [])"
  by (cases q) auto

subsection \<open>The header value and when it is refused\<close>

lemma csp_value:
  "cspValue q =
     lit ''default-src 'self' https: data: blob:; script-src 'self' 'unsafe-inline' https://cdn.shopify.com https://unpkg.com; style-src 'self' 'unsafe-inline' https://cdn.shopify.com https://unpkg.com; img-src 'self' https: data: blob:; connect-src 'self' https:; frame-ancestors https://admin.shopify.com https://*.myshopify.com''
     @ (if \<exists>p. q = JStr (p @ lit ''.myshopify.com'') then lit '' https://'' @ stringOf q else [])"
proof (cases "\<exists>p. q = JStr (p @ lit ''.myshopify.com'')")
  case True
  then obtain p where "q = JStr (p @ lit ''.myshopify.com'')" ..
  then show ?thesis
    by (simp add: cspValue_def frameAncestors_def endsWith_iff) (simp add: lit_def)
next
  case False
  then have "frameAncestors q = [lit ''https://admin.shopify.com'', lit ''https://*.myshopify.com'']"
    by (cases q) (auto simp: frameAncestors_def endsWith_iff)
  with False show ?thesis
    by (simp add: cspValue_def) (simp add: lit_def)
qed

lemma checkInvalid_append:
  "checkInvalidHeaderChar (a @ b) \<longleftrightarrow> checkInvalidHeaderChar a \<or> checkInvalidHeaderChar b"
  by (simp add: checkInvalidHeaderChar_def)

lemma checkInvalid_Nil: "\<not> checkInvalidHeaderChar []"
  by (simp add: checkInvalidHeaderChar_def)


lemma fixed_text_valid:
  "\<not> checkInvalidHeaderChar (lit ''default-src 'self' https: data: blob:; script-src 'self' 'unsafe-inline' https://cdn.shopify.com https://unpkg.com; style-src 'self' 'unsafe-inline' https://cdn.shopify.com https://unpkg.com; img-src 'self' https: data: blob:; connect-src 'self' https:; frame-ancestors https://admin.shopify.com https://*.myshopify.com'')"
  by (simp add: checkInvalidHeaderChar_def validHeaderChar_def lit_def)

lemma origin_prefix_valid: "\<not> checkInvalidHeaderChar (lit '' https://'')"
  by (simp add: checkInvalidHeaderChar_def validHeaderChar_def lit_def)

lemma csp_refused_iff:
  "checkInvalidHeaderChar (cspValue q) \<longleftrightarrow>
     (\<exists>p. q = JStr (p @ lit ''.myshopify.com'')) \<and> checkInvalidHeaderChar (stringOf q)"
  by (simp add: csp_value checkInvalid_append fixed_text_valid origin_prefix_valid checkInvalid_Nil)


lemma csp_accepted_no_shop:
  "\<not> ToBoolean q \<or> typeof q \<noteq> TString \<Longrightarrow> \<not> checkInvalidHeaderChar (cspValue q)"
  by (cases q) (auto simp: csp_refused_iff)

subsection \<open>One request\<close>

lemma cspMiddleware_accepted:
  "\<not> checkInvalidHeaderChar (cspValue (query_shop req)) \<Longrightarrow>
   cspMiddleware req fresh =
     Inr \<lparr>statusCode = 200,
          headers = [(lit ''Content-Security-Policy'', cspValue (query_shop req))],
          sent = NotSent\<rparr>"
  by (simp add: cspMiddleware_def setHeader_def fresh_def)

lemma handle_thrown:
  "checkInvalidHeaderChar (cspValue (query_shop req)) \<Longrightarrow> handle req st = (internalServerError, st)"
  by (simp add: handle_def cspMiddleware_def setHeader_def)

lemma handle_get:
  assumes "route req = GetSettings" "query_shop req = JStr s" "s \<noteq> []"
      and "\<not> checkInvalidHeaderChar (cspValue (JStr s))"
  shows "handle req st =
           (\<lparr>statusCode = 200,
             headers = [(lit ''Content-Security-Policy'', cspValue (JStr s))],
             sent = SentJson (okSettings (getOrDefault st s))\<rparr>,
            st(s \<mapsto> getOrDefault st s))"
  using assms by (simp add: handle_def cspMiddleware_accepted getSettings_def Let_def)

lemma handle_post:
  assumes "route req = PostSettings" "query_shop req = JStr s" "s \<noteq> []"
      and "\<not> checkInvalidHeaderChar (cspValue (JStr s))"
  shows "handle req st =
           (\<lparr>statusCode = 200,
             headers = [(lit ''Content-Security-Policy'', cspValue (JStr s))],
             sent = SentJson (okSettings (mergeSettings (getOrDefault st s) (orElse (body req) (JObj []))))\<rparr>,
            st(s \<mapsto> mergeSettings (getOrDefault st s) (orElse (body req) (JObj []))))"
  using assms by (simp add: handle_def cspMiddleware_accepted postSettings_def Let_def)

lemma handle_rejected:
  assumes "route req = GetSettings \<or> route req = PostSettings"
      and "\<not> ToBoolean (query_shop req) \<or> typeof (query_shop req) \<noteq> TString"
  shows "handle req st =
           (\<lparr>statusCode = 400,
             headers = [(lit ''Content-Security-Policy'', cspValue (query_shop req))],
             sent = SentJson missingShop\<rparr>, st)"
  using assms csp_accepted_no_shop [OF assms(2)]
  by (auto simp: handle_def cspMiddleware_accepted getSettings_def postSettings_def Let_def)


lemma handle_store_cases:
  "snd (handle req st) = st \<or>
   (\<exists>s. query_shop req = JStr s \<and> wf_key s \<and>
      (snd (handle req st) = st(s \<mapsto> getOrDefault st s) \<or>
       snd (handle req st) = st(s \<mapsto> mergeSettings (getOrDefault st s) (orElse (body req) (JObj [])))))"
proof (cases "checkInvalidHeaderChar (cspValue (query_shop req))")
  case True
  then show ?thesis by (simp add: handle_thrown)
next
  case accepted: False
  show ?thesis
  proof (cases "\<not> ToBoolean (query_shop req) \<or> typeof (query_shop req) \<noteq> TString")
    case True
    then show ?thesis
      using accepted
      by (cases "route req")
         (auto simp: handle_def cspMiddleware_accepted getSettings_def postSettings_def Let_def)
  next
    case False
    then obtain s where s: "query_shop req = JStr s" "s \<noteq> []"
      using valid_shop_iff [of "query_shop req"] by auto
    with accepted have ok: "\<not> checkInvalidHeaderChar (cspValue (JStr s))" by simp
    then have key: "wf_key s" using s by (simp add: wf_key_def)
    show ?thesis
    proof (cases "route req")
      case GetSettings
      then show ?thesis using s key handle_get [of req s st, OF _ _ _ ok] by auto
    next
      case PostSettings
      then show ?thesis using s key handle_post [of req s st, OF _ _ _ ok] by auto
    qed (simp_all add: handle_def cspMiddleware_accepted accepted)
  qed
qed

lemma shop_mergeSettings [simp]: "shop (mergeSettings prev b) = shop prev"
  by (simp add: mergeSettings_def)

lemma brandName_mergeSettings:
  "brandName (mergeSettings prev b) =
     (case getProp b (lit ''brandName'') of JStr n \<Rightarrow> take 40 n | _ \<Rightarrow> brandName prev)"
  by (simp add: mergeSettings_def slice_0_40 split: jsval.splits)

lemma length_brandName_mergeSettings:
  "length (brandName prev) \<le> 40 \<Longrightarrow> length (brandName (mergeSettings prev b)) \<le> 40"
  by (simp add: brandName_mergeSettings split: jsval.splits)

lemma wf_default: "wf_record s (defaultSettings s)"
  by (simp add: wf_record_def defaultSettings_def)

lemma wf_getOrDefault:
  "(\<And>k r. st k = Some r \<Longrightarrow> wf_record k r) \<Longrightarrow> wf_record s (getOrDefault st s)"
  by (simp add: getOrDefault_def wf_default split: option.splits)

lemma wf_merge: "wf_record s prev \<Longrightarrow> wf_record s (mergeSettings prev b)"
  by (simp add: wf_record_def length_brandName_mergeSettings)

lemma wf_handle:
  assumes inv: "\<And>k r. st k = Some r \<Longrightarrow> wf_record k r"
      and "snd (handle req st) k = Some r"
  shows "wf_record k r"
  using handle_store_cases [of req st] assms(2) wf_getOrDefault [of st, OF inv] inv wf_merge
  by (auto split: if_splits)

lemma wf_serve:
  assumes "\<And>k r. st k = Some r \<Longrightarrow> wf_record k r"
      and "serve reqs st k = Some r"
  shows "wf_record k r"
  using assms
proof (induction reqs arbitrary: st)
  case Nil
  then show ?case by simp
next
  case (Cons req reqs)
  show ?case
  proof (rule Cons.IH)
    show "serve reqs (snd (handle req st)) k = Some r" using Cons.prems(2) by simp
  next
    fix k' r'
    assume "snd (handle req st) k' = Some r'"
    then show "wf_record k' r'" using wf_handle [of st req k' r'] Cons.prems(1) by blast
  qed
qed

lemma handle_keeps_keys:
  "st k = Some r \<Longrightarrow> \<exists>r'. snd (handle req st) k = Some r' \<and> shop r' = shop r"
  using handle_store_cases [of req st]
  by (auto simp: getOrDefault_def)



lemma key_handle:
  assumes "\<And>k r. st k = Some r \<Longrightarrow> wf_key k"
      and "snd (handle req st) k = Some r"
  shows "wf_key k"
  using handle_store_cases [of req st] assms
  by (auto split: if_splits)

lemma key_serve:
  assumes "\<And>k r. st k = Some r \<Longrightarrow> wf_key k"
      and "serve reqs st k = Some r"
  shows "wf_key k"
  using assms
proof (induction reqs arbitrary: st)
  case Nil
  then show ?case by simp
next
  case (Cons req reqs)
  show ?case
  proof (rule Cons.IH)
    show "serve reqs (snd (handle req st)) k = Some r" using Cons.prems(2) by simp
  next
    fix k' r'
    assume "snd (handle req st) k' = Some r'"
    then show "wf_key k'" using key_handle [of st req k' r'] Cons.prems(1) by blast
  qed
qed

section \<open>The claims\<close>

lemma acme_not_empty: "acme \<noteq> []" by (simp add: acme_def)

lemma acme_accepted: "\<not> checkInvalidHeaderChar (cspValue (JStr acme))"
  by (simp add: csp_refused_iff) (simp add: checkInvalidHeaderChar_def validHeaderChar_def acme_def lit_def)





lemma serve_getAcme: "serve [getAcme] Map.empty = acmeStore"
  using handle_get [of getAcme acme Map.empty, OF _ _ acme_not_empty acme_accepted]
  by (simp add: getAcme_def getOrDefault_def acmeStore_def)

lemma handle_onlyDelivered:
  "handle onlyDelivered st =
     (\<lparr>statusCode = 200,
       headers = [(lit ''Content-Security-Policy'', cspValue (JStr acme))],
       sent = SentJson (okSettings (mergeSettings (getOrDefault st acme) (JObj [(lit ''notifyDelivered'', JBool False)])))\<rparr>,
      st(acme \<mapsto> mergeSettings (getOrDefault st acme) (JObj [(lit ''notifyDelivered'', JBool False)])))"
  using handle_post [of onlyDelivered acme st, OF _ _ acme_not_empty acme_accepted]
  by (simp add: onlyDelivered_def orElse_def)

subsection \<open>C1: a POST that supplies only \<open>notifyDelivered\<close>\<close>

text \<open>
  C1, as stated, fails. The shop \<open>acme.myshopify.com\<close> has the default record, with
  \<open>notifyDelay\<close> and \<open>notifyOutForDelivery\<close> both true. After a POST for that shop whose
  body is \<open>{notifyDelivered: false}\<close> the stored \<open>notifyDelay\<close> and \<open>notifyOutForDelivery\<close>
  are false: \<open>Boolean(body.notifyDelay)\<close> is \<open>Boolean(undefined)\<close>. The two flags did not
  keep their previous values.
\<close>

theorem post_only_notifyDelivered_counterexample:
  "map_option notifyDelay (acmeStore acme) = Some True \<and>
   map_option notifyOutForDelivery (acmeStore acme) = Some True \<and>
   map_option notifyDelay (snd (handle onlyDelivered acmeStore) acme) = Some False \<and>
   map_option notifyOutForDelivery (snd (handle onlyDelivered acmeStore) acme) = Some False"
  by (simp add: handle_onlyDelivered acmeStore_def getOrDefault_def defaultSettings_def mergeSettings_def)

text \<open>
  C1, amended. For every shop with an existing settings record \<open>r\<close> (a record that some
  sequence of requests, served from the empty store, has left under the shop's key), a
  POST to \<open>/api/settings\<close> for that shop whose body is \<open>{notifyDelivered: false}\<close> stores \<open>r\<close>
  with all three notification flags false: \<open>shop\<close>, \<open>brandName\<close> and \<open>accent\<close> keep their
  previous values, \<open>notifyDelivered\<close> becomes false, and \<open>notifyDelay\<close> and
  \<open>notifyOutForDelivery\<close>, absent from the body, become false as well.
\<close>

theorem post_only_notifyDelivered:
  assumes "route req = PostSettings" and "query_shop req = JStr s"
      and "serve reqs Map.empty = st" and "st s = Some r"
      and "body req = JObj [(lit ''notifyDelivered'', JBool False)]"
  shows "snd (handle req st) s =
           Some (r\<lparr>notifyDelay := False, notifyOutForDelivery := False, notifyDelivered := False\<rparr>)"
proof -
  have "wf_key s"
    using key_serve [of Map.empty reqs s r] assms(3,4) by simp
  then have "s \<noteq> []" and "\<not> checkInvalidHeaderChar (cspValue (JStr s))"
    by (simp_all add: wf_key_def)
  from handle_post [OF assms(1,2) this, of st] show ?thesis
    using assms(4,5)
    by (simp add: getOrDefault_def mergeSettings_def orElse_def)
qed

text \<open>
  The amended C1 at the shop \<open>acme.myshopify.com\<close> holding the default record, which a
  first GET has created: the record stored afterwards still has the default brand name
  and accent, and no flag set.
\<close>

theorem post_only_notifyDelivered_witness:
  "snd (handle onlyDelivered acmeStore) acme =
     Some \<lparr>shop = acme, brandName = lit ''Orderly'', accent = lit ''#16a34a'',
           notifyDelay = False, notifyOutForDelivery = False, notifyDelivered = False\<rparr>"
proof -
  have r: "route onlyDelivered = PostSettings"
    and q: "query_shop onlyDelivered = JStr acme"
    and b: "body onlyDelivered = JObj [(lit ''notifyDelivered'', JBool False)]"
    by (simp_all add: onlyDelivered_def)
  have e: "acmeStore acme = Some (defaultSettings acme)"
    by (simp add: acmeStore_def)
  show ?thesis
    using post_only_notifyDelivered
        [of onlyDelivered acme "[getAcme]" acmeStore "defaultSettings acme", OF r q serve_getAcme e b]
    by (simp add: defaultSettings_def)
qed

subsection \<open>C2: flags are coerced and overwritten, strings are kept\<close>




subsection \<open>C3: a request without a usable shop\<close>

text \<open>
  C3. For every request to GET or POST \<open>/api/settings\<close> whose \<open>shop\<close> query parameter is
  missing, the empty string, or not a string (an array or an object of the query parser),
  the response has status 400 and the body \<open>{ok: false, error: "Missing ?shop="}\<close>, and the
  store after the request is the store before it: no entry is created or changed.
\<close>

theorem missing_shop_rejected:
  assumes "route req = GetSettings \<or> route req = PostSettings"
      and "query_shop req = JUndefined \<or> query_shop req = JStr [] \<or> typeof (query_shop req) \<noteq> TString"
  shows "statusCode (fst (handle req st)) = 400 \<and>
         sent (fst (handle req st)) =
           SentJson (JObj [(lit ''ok'', JBool False), (lit ''error'', JStr (lit ''Missing ?shop=''))]) \<and>
         snd (handle req st) = st"
proof -
  from assms(2) have "\<not> ToBoolean (query_shop req) \<or> typeof (query_shop req) \<noteq> TString"
    by auto
  from handle_rejected [OF assms(1) this, of st] show ?thesis
    by (simp add: missingShop_def)
qed

text \<open>
  C3 at a GET without \<open>shop\<close> on a store that holds one record, and at a POST whose \<open>shop\<close>
  was given twice (an array) on the empty store.
\<close>

theorem missing_shop_rejected_witness:
  "statusCode (fst (handle getNoShop acmeStore)) = 400 \<and>
   sent (fst (handle getNoShop acmeStore)) =
     SentJson (JObj [(lit ''ok'', JBool False), (lit ''error'', JStr (lit ''Missing ?shop=''))]) \<and>
   snd (handle getNoShop acmeStore) = acmeStore \<and>
   statusCode (fst (handle postTwoShops Map.empty)) = 400 \<and>
   snd (handle postTwoShops Map.empty) = Map.empty"
proof -
  have g: "route getNoShop = GetSettings \<or> route getNoShop = PostSettings"
    and gq: "query_shop getNoShop = JUndefined \<or> query_shop getNoShop = JStr [] \<or>
             typeof (query_shop getNoShop) \<noteq> TString"
    by (simp_all add: getNoShop_def)
  have p: "route postTwoShops = GetSettings \<or> route postTwoShops = PostSettings"
    and pq: "query_shop postTwoShops = JUndefined \<or> query_shop postTwoShops = JStr [] \<or>
             typeof (query_shop postTwoShops) \<noteq> TString"
    by (simp_all add: postTwoShops_def)
  show ?thesis
    using missing_shop_rejected [OF g gq, of acmeStore]
          missing_shop_rejected [OF p pq, of Map.empty]
    by simp
qed

subsection \<open>C4: the first fetch of a shop\<close>




subsection \<open>C5: the brand name is truncated\<close>




subsection \<open>C6: fetching twice\<close>

text \<open>
  C6. For two GET \<open>/api/settings\<close> requests with the same \<open>shop\<close> parameter, served one
  right after the other, the second response is the first response (the same settings
  record in particular) and the second request leaves the store as the first left it.
\<close>

theorem fetch_idempotent:
  assumes "route req1 = GetSettings" and "route req2 = GetSettings"
      and "query_shop req2 = query_shop req1"
  shows "fst (handle req2 (snd (handle req1 st))) = fst (handle req1 st) \<and>
         snd (handle req2 (snd (handle req1 st))) = snd (handle req1 st)"
proof (cases "checkInvalidHeaderChar (cspValue (query_shop req1))")
  case True
  then show ?thesis
    using assms(3) by (simp add: handle_thrown)
next
  case accepted: False
  show ?thesis
  proof (cases "\<not> ToBoolean (query_shop req1) \<or> typeof (query_shop req1) \<noteq> TString")
    case True
    then show ?thesis
      using assms handle_rejected [of req1 st] handle_rejected [of req2 st]
      by simp
  next
    case False
    then obtain s where s: "query_shop req1 = JStr s" "s \<noteq> []"
      using valid_shop_iff [of "query_shop req1"] by auto
    with accepted have ok: "\<not> checkInvalidHeaderChar (cspValue (JStr s))" by simp
    have again: "getOrDefault (st(s \<mapsto> getOrDefault st s)) s = getOrDefault st s"
      by (simp add: getOrDefault_def)
    show ?thesis
      using assms s handle_get [of req1 s st, OF _ _ _ ok]
            handle_get [of req2 s "st(s \<mapsto> getOrDefault st s)", OF _ _ _ ok]
      by (simp add: again)
  qed
qed

text \<open>C6 at the shop \<open>acme.myshopify.com\<close>, first seen by the first of the two requests.\<close>

theorem fetch_idempotent_witness:
  "fst (handle getAcme (snd (handle getAcme Map.empty))) = fst (handle getAcme Map.empty) \<and>
   snd (handle getAcme (snd (handle getAcme Map.empty))) = snd (handle getAcme Map.empty) \<and>
   sent (fst (handle getAcme (snd (handle getAcme Map.empty)))) = SentJson (okSettings (defaultSettings acme))"
proof -
  have r: "route getAcme = GetSettings" and q: "query_shop getAcme = JStr acme"
    by (simp_all add: getAcme_def)
  show ?thesis
    using fetch_idempotent [of getAcme getAcme Map.empty, OF r r refl]
          handle_get [of getAcme acme Map.empty, OF r q acme_not_empty acme_accepted]
    by (simp add: getOrDefault_def)
qed

subsection \<open>C7: the shop field is the key and never changes\<close>

text \<open>
  C7. After any sequence of requests served from the empty store, a record \<open>r\<close> stored
  under the key \<open>k\<close> has \<open>shop r = k\<close>; and whatever request comes next (a POST with a
  \<open>shop\<close> field in its body included), the key \<open>k\<close> still holds a record, whose \<open>shop\<close> is
  that of \<open>r\<close>.
\<close>

theorem shop_field_is_key:
  assumes "serve reqs Map.empty k = Some r"
  shows "shop r = k \<and>
         map_option shop (snd (handle req (serve reqs Map.empty)) k) = Some (shop r)"
proof -
  have "wf_record k r"
    using wf_serve [of Map.empty reqs k r] assms by simp
  then have "shop r = k" by (simp add: wf_record_def)
  moreover from handle_keeps_keys [of "serve reqs Map.empty" k r req, OF assms]
  have "map_option shop (snd (handle req (serve reqs Map.empty)) k) = Some (shop r)"
    by auto
  ultimately show ?thesis by simp
qed

text \<open>
  C7 at the record that a first GET creates for \<open>acme.myshopify.com\<close>, followed by a POST
  for that shop whose body says \<open>shop: "globex.myshopify.com"\<close>.
\<close>

theorem shop_field_is_key_witness:
  "serve [getAcme] Map.empty acme = Some (defaultSettings acme) \<and>
   shop (defaultSettings acme) = acme \<and>
   map_option shop (snd (handle shopInBody (serve [getAcme] Map.empty)) acme) = Some acme"
proof -
  have s: "serve [getAcme] Map.empty acme = Some (defaultSettings acme)"
    by (simp only: serve_getAcme) (simp add: acmeStore_def)
  show ?thesis
    using s shop_field_is_key [OF s, of shopInBody]
    by (simp add: defaultSettings_def)
qed

subsection \<open>C8: the brand name never exceeds 40\<close>

text \<open>
  C8. After any sequence of requests served from the empty store, every stored record has
  a \<open>brandName\<close> of at most 40 code units: the default name has 7, and a POST stores either
  the previous name or the first 40 code units of the new one.
\<close>

theorem brandName_bounded:
  assumes "serve reqs Map.empty k = Some r"
  shows "length (brandName r) \<le> 40"
proof -
  have "wf_record k r"
    using wf_serve [of Map.empty reqs k r] assms by simp
  then show ?thesis by (simp add: wf_record_def)
qed

text \<open>C8 after a GET and a POST with a brand name of 50 characters.\<close>

theorem brandName_bounded_witness:
  "serve [getAcme, longName] Map.empty acme =
     Some ((defaultSettings acme)
             \<lparr>brandName := lit ''Acme Outdoor Supply and Hardware Company'',
              notifyDelay := False, notifyOutForDelivery := False, notifyDelivered := False\<rparr>) \<and>
   length (lit ''Acme Outdoor Supply and Hardware Company'') \<le> 40"
proof -
  have g: "snd (handle getAcme Map.empty) = Map.empty(acme \<mapsto> defaultSettings acme)"
    using serve_getAcme by (simp add: acmeStore_def)
  have p: "snd (handle longName st) acme =
             Some (mergeSettings (getOrDefault st acme) (orElse (body longName) (JObj [])))" for st
    using handle_post [of longName acme st, OF _ _ acme_not_empty acme_accepted]
    by (simp add: longName_def)
  have s: "serve [getAcme, longName] Map.empty acme =
     Some ((defaultSettings acme)
             \<lparr>brandName := lit ''Acme Outdoor Supply and Hardware Company'',
              notifyDelay := False, notifyOutForDelivery := False, notifyDelivered := False\<rparr>)"
    by (simp add: g p getOrDefault_def)
       (simp add: longName_def orElse_def mergeSettings_def slice_0_40 take_lit defaultSettings_def)
  show ?thesis
    using s brandName_bounded [OF s]
    by simp
qed

subsection \<open>C9: the Content-Security-Policy header\<close>




subsection \<open>C10: other shops are left alone\<close>

text \<open>
  C10. For every request and every key \<open>k\<close> other than the request's \<open>shop\<close> parameter, the
  store holds under \<open>k\<close> after the request what it held before (a record or nothing).
\<close>

theorem other_shops_untouched:
  assumes "query_shop req \<noteq> JStr k"
  shows "snd (handle req st) k = st k"
  using handle_store_cases [of req st] assms
  by auto

text \<open>
  C10 at a POST for \<open>acme.myshopify.com\<close> on a store that also holds a record for
  \<open>globex.myshopify.com\<close>.
\<close>

theorem other_shops_untouched_witness:
  "JStr acme \<noteq> JStr (lit ''globex.myshopify.com'') \<and>
   snd (handle onlyDelivered (acmeStore(lit ''globex.myshopify.com'' \<mapsto> defaultSettings (lit ''globex.myshopify.com''))))
       (lit ''globex.myshopify.com'')
     = Some (defaultSettings (lit ''globex.myshopify.com''))"
proof -
  have q: "query_shop onlyDelivered \<noteq> JStr (lit ''globex.myshopify.com'')"
    by (simp add: onlyDelivered_def acme_def)
  show ?thesis
    using other_shops_untouched [OF q]
    by (simp add: acme_def)
qed

end
